theory Spec2Isabelle
  imports Main "HOL-Library.Word"
begin

unbundle bit_operations_syntax

section \<open>The LC-3 virtual machine of \<^verbatim>\<open>main.c\<close>\<close>

text \<open>
  The interpreter is one C file. Its globals are the array \<^verbatim>\<open>memory\<close>, the array
  \<^verbatim>\<open>registers\<close> and the terminal; the handlers mutate them in place. Here the
  globals are the fields of a record that each handler takes and returns. Whatever stops
  the C program before a handler returns (an index past the end of \<^verbatim>\<open>memory\<close>,
  \<^verbatim>\<open>abort()\<close>, a \<^verbatim>\<open>getchar()\<close> that waits for a key) is a value of type
  \<open>stop\<close>, returned on the left of a sum.
\<close>

subsection \<open>Constants and enumerations\<close>

type_synonym u8 = "8 word"
type_synonym u16 = "16 word"
type_synonym u32 = "32 word"

definition PC_START :: u16 where "PC_START = 0x3000"

definition UINT16_MAX :: nat where "UINT16_MAX = 65535"

text \<open>\<^verbatim>\<open>uint16_t memory[UINT16_MAX];\<close> declares this many cells, indexed from 0.\<close>

definition memory_cells :: nat where "memory_cells = UINT16_MAX"

definition R0 :: nat where "R0 = 0"
definition R7 :: nat where "R7 = 7"
definition R_PC :: nat where "R_PC = 8"
definition R_COND :: nat where "R_COND = 9"
definition R_COUNT :: nat where "R_COUNT = 10"

definition FLG_POS :: u16 where "FLG_POS = push_bit 0 1"
definition FLG_ZRO :: u16 where "FLG_ZRO = push_bit 1 1"
definition FLG_NEG :: u16 where "FLG_NEG = push_bit 2 1"

definition OP_BR :: u16 where "OP_BR = 0"
definition OP_ADD :: u16 where "OP_ADD = 1"
definition OP_LD :: u16 where "OP_LD = 2"
definition OP_ST :: u16 where "OP_ST = 3"
definition OP_JSR :: u16 where "OP_JSR = 4"
definition OP_AND :: u16 where "OP_AND = 5"
definition OP_LDR :: u16 where "OP_LDR = 6"
definition OP_STR :: u16 where "OP_STR = 7"
definition OP_RTI :: u16 where "OP_RTI = 8"
definition OP_NOT :: u16 where "OP_NOT = 9"
definition OP_LDI :: u16 where "OP_LDI = 10"
definition OP_STI :: u16 where "OP_STI = 11"
definition OP_JMP :: u16 where "OP_JMP = 12"
definition OP_RES :: u16 where "OP_RES = 13"
definition OP_LEA :: u16 where "OP_LEA = 14"
definition OP_TRAP :: u16 where "OP_TRAP = 15"

definition TRAP_GETC :: u16 where "TRAP_GETC = 0x20"
definition TRAP_OUT :: u16 where "TRAP_OUT = 0x21"
definition TRAP_PUTS :: u16 where "TRAP_PUTS = 0x22"
definition TRAP_IN :: u16 where "TRAP_IN = 0x23"
definition TRAP_PUTSP :: u16 where "TRAP_PUTSP = 0x24"
definition TRAP_HALT :: u16 where "TRAP_HALT = 0x25"

definition MR_KBSR :: u16 where "MR_KBSR = 0xFE00"
definition MR_KBDR :: u16 where "MR_KBDR = 0xFE02"

subsection \<open>Machine state\<close>

text \<open>
  The arrays are functions from the index to the cell. An array has no cell at an index
  that is not below its length: every access whose index is computed at run time from a
  16-bit address checks the index against \<open>memory_cells\<close> and stops with
  \<open>OutOfBounds\<close> where the C program would leave the array. Register indices are the
  constants above or a 3-bit field of the instruction, hence below \<open>R_COUNT\<close>.

  Standard input has two layers. \<open>pending\<close> holds the bytes that wait on file
  descriptor 0, unread by the process; \<open>eof\<close> says that the input has ended, so that no
  byte will follow them. \<open>buffered\<close> holds the bytes that \<^verbatim>\<open>getchar\<close> has already
  read from the descriptor into the buffer of the \<^verbatim>\<open>stdin\<close> stream and not yet handed
  out (the program never calls \<^verbatim>\<open>setvbuf\<close>, so the stream is buffered). \<open>stdout\<close> is
  the bytes written so far; \<^verbatim>\<open>fflush\<close> changes none of these.
\<close>

datatype stop = OutOfBounds | Aborted | Blocked

record vm =
  memory :: "nat \<Rightarrow> u16"
  registers :: "nat \<Rightarrow> u16"
  pending :: "u8 list"
  buffered :: "u8 list"
  eof :: bool
  stdout :: "u8 list"

text \<open>
  \<^verbatim>\<open>select\<close> with a zero timeout looks at file descriptor 0 only: it reports the
  descriptor readable when a byte waits on it or the input has ended, and knows nothing of
  the bytes in the buffer of the stream. \<^verbatim>\<open>check_key\<close> returns the truth value of
  that as a \<^verbatim>\<open>uint16_t\<close>.
\<close>

definition check_key :: "vm \<Rightarrow> u16" where
  "check_key s = (if pending s \<noteq> [] \<or> eof s then 1 else 0)"

text \<open>The size of the buffer of a stream (\<^verbatim>\<open>BUFSIZ\<close> of \<^verbatim>\<open>stdio.h\<close>, 8192 in glibc).\<close>

definition BUFSIZ :: nat where "BUFSIZ = 8192"

text \<open>
  \<^verbatim>\<open>getchar\<close> yields an \<^verbatim>\<open>int\<close>: the next byte as an unsigned value, or
  \<^verbatim>\<open>EOF\<close> (-1) at the end of the input. It hands out the first byte of the buffer of
  the stream; with the buffer empty it first fills it by one \<^verbatim>\<open>read\<close> of the
  descriptor, which takes the bytes waiting there, up to the size of the buffer. With
  nothing to read on an open input it does not return.
\<close>

definition getchar :: "vm \<Rightarrow> stop + (int \<times> vm)" where
  "getchar s =
     (case buffered s of
        c # cs \<Rightarrow> Inr (uint c, s\<lparr>buffered := cs\<rparr>)
      | [] \<Rightarrow>
          (case take BUFSIZ (pending s) of
             c # cs \<Rightarrow>
               Inr (uint c, s\<lparr>pending := drop BUFSIZ (pending s), buffered := cs\<rparr>)
           | [] \<Rightarrow> if eof s then Inr (- 1, s) else Inl Blocked))"

text \<open>\<^verbatim>\<open>putc\<close> and \<^verbatim>\<open>puts\<close> (which appends a newline) on standard output.\<close>

definition putc :: "u8 \<Rightarrow> vm \<Rightarrow> vm" where
  "putc c s = s\<lparr>stdout := stdout s @ [c]\<rparr>"

definition puts :: "u8 list \<Rightarrow> vm \<Rightarrow> vm" where
  "puts str s = s\<lparr>stdout := stdout s @ str @ [0x0A]\<rparr>"

definition printf :: "u8 list \<Rightarrow> vm \<Rightarrow> vm" where
  "printf str s = s\<lparr>stdout := stdout s @ str\<rparr>"

subsection \<open>Memory access\<close>

definition mem_write :: "u16 \<Rightarrow> u16 \<Rightarrow> vm \<Rightarrow> stop + vm" where
  "mem_write address val s =
     (if unat address < memory_cells
      then Inr (s\<lparr>memory := (memory s)(unat address := val)\<rparr>)
      else Inl OutOfBounds)"

text \<open>The last statement of \<^verbatim>\<open>mem_read\<close>: \<^verbatim>\<open>return memory[address];\<close>\<close>

definition return_cell :: "u16 \<Rightarrow> vm \<Rightarrow> stop + (u16 \<times> vm)" where
  "return_cell address s =
     (if unat address < memory_cells
      then Inr (memory s (unat address), s)
      else Inl OutOfBounds)"

definition mem_read :: "u16 \<Rightarrow> vm \<Rightarrow> stop + (u16 \<times> vm)" where
  "mem_read address s =
     (if address = MR_KBSR then
        (if check_key s \<noteq> 0 then
           (case getchar (s\<lparr>memory := (memory s)(unat MR_KBSR := push_bit 15 1)\<rparr>) of
              Inl e \<Rightarrow> Inl e
            | Inr (c, s') \<Rightarrow>
                return_cell address (s'\<lparr>memory := (memory s')(unat MR_KBDR := word_of_int c)\<rparr>))
         else return_cell address (s\<lparr>memory := (memory s)(unat MR_KBSR := 0)\<rparr>))
      else return_cell address s)"

subsection \<open>CPU procedures\<close>

text \<open>
  In \<^verbatim>\<open>sign_extend\<close> the operand \<^verbatim>\<open>x\<close> is promoted to a 32-bit \<^verbatim>\<open>int\<close>, the
  constant \<^verbatim>\<open>0xFFFF\<close> is an \<^verbatim>\<open>int\<close>, and the result of \<^verbatim>\<open>|=\<close> is converted
  back to 16 bits. The shifts are those of the 32-bit machine word (for a count of 16 the
  shifted constant is \<^verbatim>\<open>0xFFFF0000\<close>, whose low half is 0). The callers pass the
  counts 5, 6, 9 and 11.
\<close>

definition sign_extend :: "u16 \<Rightarrow> nat \<Rightarrow> u16" where
  "sign_extend x num_bits =
     (if drop_bit (num_bits - 1) (ucast x :: u32) AND 1 \<noteq> 0
      then ucast ((ucast x :: u32) OR push_bit num_bits (0xFFFF :: u32))
      else x)"

definition update_flags :: "nat \<Rightarrow> vm \<Rightarrow> vm" where
  "update_flags reg s =
     (if registers s reg = 0
      then s\<lparr>registers := (registers s)(R_COND := FLG_ZRO)\<rparr>
      else if drop_bit 15 (registers s reg) \<noteq> 0
      then s\<lparr>registers := (registers s)(R_COND := FLG_NEG)\<rparr>
      else s\<lparr>registers := (registers s)(R_COND := FLG_POS)\<rparr>)"

text \<open>A register selector: the 3-bit field of the instruction that starts at bit \<open>k\<close>.\<close>

definition reg_field :: "u16 \<Rightarrow> nat \<Rightarrow> nat" where
  "reg_field instruction k = unat (drop_bit k instruction AND 0x7)"

definition add :: "u16 \<Rightarrow> vm \<Rightarrow> vm" where
  "add instruction s =
     (let register0 = reg_field instruction 9;
          register1 = reg_field instruction 6;
          immediate_flag = drop_bit 5 instruction AND 0x1
      in update_flags register0
           (if immediate_flag \<noteq> 0 then
              (let imm5 = sign_extend (instruction AND 0x1F) 5
               in s\<lparr>registers := (registers s)(register0 := registers s register1 + imm5)\<rparr>)
            else
              (let register2 = reg_field instruction 0
               in s\<lparr>registers :=
                      (registers s)(register0 := registers s register1 + registers s register2)\<rparr>)))"

definition ldi :: "u16 \<Rightarrow> vm \<Rightarrow> stop + vm" where
  "ldi instruction s =
     (let register0 = reg_field instruction 9;
          pc_offset = sign_extend (instruction AND 0x1FF) 9
      in case mem_read (registers s R_PC + pc_offset) s of
           Inl e \<Rightarrow> Inl e
         | Inr (a, s1) \<Rightarrow>
             (case mem_read a s1 of
                Inl e \<Rightarrow> Inl e
              | Inr (v, s2) \<Rightarrow>
                  Inr (update_flags register0
                         (s2\<lparr>registers := (registers s2)(register0 := v)\<rparr>))))"

definition and_op :: "u16 \<Rightarrow> vm \<Rightarrow> vm" where
  "and_op instruction s =
     (let register0 = reg_field instruction 9;
          register1 = reg_field instruction 6;
          immediate_flag = drop_bit 5 instruction AND 0x1
      in update_flags register0
           (if immediate_flag \<noteq> 0 then
              (let imm5 = sign_extend (instruction AND 0x1F) 5
               in s\<lparr>registers := (registers s)(register0 := registers s register1 AND imm5)\<rparr>)
            else
              (let register2 = reg_field instruction 0
               in s\<lparr>registers :=
                      (registers s)(register0 := registers s register1 AND registers s register2)\<rparr>)))"

definition not_op :: "u16 \<Rightarrow> vm \<Rightarrow> vm" where
  "not_op instruction s =
     (let register0 = reg_field instruction 9;
          register1 = reg_field instruction 6
      in update_flags register0
           (s\<lparr>registers := (registers s)(register0 := NOT (registers s register1))\<rparr>))"

definition br :: "u16 \<Rightarrow> vm \<Rightarrow> vm" where
  "br instruction s =
     (let pc_offset = sign_extend (instruction AND 0x1FF) 9;
          cond_flag = drop_bit 9 instruction AND 0x7
      in if cond_flag AND registers s R_COND \<noteq> 0
         then s\<lparr>registers := (registers s)(R_PC := registers s R_PC + pc_offset)\<rparr>
         else s)"

definition jmp :: "u16 \<Rightarrow> vm \<Rightarrow> vm" where
  "jmp instruction s =
     (let register1 = reg_field instruction 6
      in s\<lparr>registers := (registers s)(R_PC := registers s register1)\<rparr>)"

definition jsr :: "u16 \<Rightarrow> vm \<Rightarrow> vm" where
  "jsr instruction s =
     (let long_flag = drop_bit 11 instruction AND 1;
          s1 = s\<lparr>registers := (registers s)(R7 := registers s R_PC)\<rparr>
      in if long_flag \<noteq> 0 then
           (let long_pc_offset = sign_extend (instruction AND 0x7FF) 11
            in s1\<lparr>registers := (registers s1)(R_PC := registers s1 R_PC + long_pc_offset)\<rparr>)
         else
           (let register1 = reg_field instruction 6
            in s1\<lparr>registers := (registers s1)(R_PC := registers s1 register1)\<rparr>))"

definition ld :: "u16 \<Rightarrow> vm \<Rightarrow> stop + vm" where
  "ld instruction s =
     (let register0 = reg_field instruction 9;
          pc_offset = sign_extend (instruction AND 0x1FF) 9
      in case mem_read (registers s R_PC + pc_offset) s of
           Inl e \<Rightarrow> Inl e
         | Inr (v, s1) \<Rightarrow>
             Inr (update_flags register0 (s1\<lparr>registers := (registers s1)(register0 := v)\<rparr>)))"

definition ldr :: "u16 \<Rightarrow> vm \<Rightarrow> stop + vm" where
  "ldr instruction s =
     (let register0 = reg_field instruction 9;
          register1 = reg_field instruction 6;
          offset = sign_extend (instruction AND 0x3F) 6
      in case mem_read (registers s register1 + offset) s of
           Inl e \<Rightarrow> Inl e
         | Inr (v, s1) \<Rightarrow>
             Inr (update_flags register0 (s1\<lparr>registers := (registers s1)(register0 := v)\<rparr>)))"

definition lea :: "u16 \<Rightarrow> vm \<Rightarrow> vm" where
  "lea instruction s =
     (let register0 = reg_field instruction 9;
          pc_offset = sign_extend (instruction AND 0x1FF) 9
      in update_flags register0
           (s\<lparr>registers := (registers s)(register0 := registers s R_PC + pc_offset)\<rparr>))"

definition st :: "u16 \<Rightarrow> vm \<Rightarrow> stop + vm" where
  "st instruction s =
     (let register0 = reg_field instruction 9;
          pc_offset = sign_extend (instruction AND 0x1FF) 9
      in mem_write (registers s R_PC + pc_offset) (registers s register0) s)"

definition sti :: "u16 \<Rightarrow> vm \<Rightarrow> stop + vm" where
  "sti instruction s =
     (let register0 = reg_field instruction 9;
          pc_offset = sign_extend (instruction AND 0x1FF) 9
      in case mem_read (registers s R_PC + pc_offset) s of
           Inl e \<Rightarrow> Inl e
         | Inr (a, s1) \<Rightarrow> mem_write a (registers s1 register0) s1)"

definition str :: "u16 \<Rightarrow> vm \<Rightarrow> stop + vm" where
  "str instruction s =
     (let register0 = reg_field instruction 9;
          register1 = reg_field instruction 6;
          offset = sign_extend (instruction AND 0x3F) 6
      in mem_write (registers s register1 + offset) (registers s register0) s)"

subsection \<open>Trap routines\<close>

text \<open>The bytes of a C string literal.\<close>

definition bytes :: "string \<Rightarrow> u8 list" where
  "bytes cs = map (\<lambda>c. word_of_nat (of_char c)) cs"

text \<open>
  The \<^verbatim>\<open>while (*char_)\<close> loops of \<^verbatim>\<open>trap_puts\<close> and \<^verbatim>\<open>trap_putsp\<close> walk a
  pointer into \<^verbatim>\<open>memory\<close>: \<open>i\<close> is its distance from the start of the array. The
  pointer is not a 16-bit value, so it does not wrap: with no zero cell ahead it runs off
  the end of the array.
\<close>

function trap_puts_loop :: "nat \<Rightarrow> vm \<Rightarrow> stop + vm" where
  "trap_puts_loop i s =
     (if memory_cells \<le> i then Inl OutOfBounds
      else if memory s i = 0 then Inr s
      else trap_puts_loop (Suc i) (putc (ucast (memory s i)) s))"
  by pat_completeness auto
termination
  by (relation "measure (\<lambda>(i, s). memory_cells - i)") auto

declare trap_puts_loop.simps [simp del]

definition trap_puts :: "vm \<Rightarrow> stop + vm" where
  "trap_puts s = trap_puts_loop (unat (registers s R0)) s"

definition trap_getc :: "vm \<Rightarrow> stop + vm" where
  "trap_getc s =
     (case getchar s of
        Inl e \<Rightarrow> Inl e
      | Inr (c, s') \<Rightarrow> Inr (s'\<lparr>registers := (registers s')(R0 := word_of_int c)\<rparr>))"

definition trap_out :: "vm \<Rightarrow> vm" where
  "trap_out s = putc (ucast (registers s R0)) s"

text \<open>
  In \<^verbatim>\<open>trap_in\<close> the character is held in a plain \<^verbatim>\<open>char\<close> before it is widened
  to 16 bits; plain \<^verbatim>\<open>char\<close> is taken as signed (as on x86-64), so the widening
  extends the sign.
\<close>

definition trap_in :: "vm \<Rightarrow> stop + vm" where
  "trap_in s =
     (case getchar (printf (bytes ''Digite um caractere: '') s) of
        Inl e \<Rightarrow> Inl e
      | Inr (c, s') \<Rightarrow>
          (let char_v = (word_of_int c :: u8);
               s'' = putc char_v s'
           in Inr (s''\<lparr>registers := (registers s'')(R0 := scast char_v)\<rparr>)))"

function trap_putsp_loop :: "nat \<Rightarrow> vm \<Rightarrow> stop + vm" where
  "trap_putsp_loop i s =
     (if memory_cells \<le> i then Inl OutOfBounds
      else if memory s i = 0 then Inr s
      else
        (let char1 = (ucast (memory s i AND 0xFF) :: u8);
             s1 = putc char1 s;
             char2 = (ucast (drop_bit 8 (memory s i)) :: u8);
             s2 = (if char2 \<noteq> 0 then putc char2 s1 else s1)
         in trap_putsp_loop (Suc i) s2))"
  by pat_completeness auto
termination
  by (relation "measure (\<lambda>(i, s). memory_cells - i)") auto

declare trap_putsp_loop.simps [simp del]

definition trap_putsp :: "vm \<Rightarrow> stop + vm" where
  "trap_putsp s = trap_putsp_loop (unat (registers s R0)) s"

text \<open>
  Two objects named \<^verbatim>\<open>running\<close> exist while a trap executes: the \<^verbatim>\<open>bool\<close> local
  to \<^verbatim>\<open>main\<close> that the loop tests, and the parameter of \<^verbatim>\<open>trap\<close>, a
  \<^verbatim>\<open>bool *\<close> that holds the address of the former. \<^verbatim>\<open>halt\<close> takes a
  \<^verbatim>\<open>bool **\<close> and assigns through it once. The locals are kept in a store from
  variables to values; a pointer value is the variable it points to, or \<open>None\<close> for the
  null pointer.
\<close>

datatype var = Main_running | Trap_running

datatype cval = Bool bool | Ptr "var option"

type_synonym frames = "var \<rightharpoonup> cval"

text \<open>
  \<^verbatim>\<open>*running = false;\<close> in \<^verbatim>\<open>halt\<close>: the object that \<^verbatim>\<open>running\<close> points to
  has type \<^verbatim>\<open>bool *\<close>, and the constant \<^verbatim>\<open>false\<close> (0) converts to the null
  pointer.
\<close>

definition halt :: "var \<Rightarrow> frames \<times> vm \<Rightarrow> frames \<times> vm" where
  "halt running c =
     (case c of (fr, s) \<Rightarrow> (fr(running \<mapsto> Ptr None), puts (bytes ''HALT'') s))"

text \<open>
  \<^verbatim>\<open>trap\<close> binds its parameter on entry, dispatches on the low byte (a \<^verbatim>\<open>switch\<close>
  without \<^verbatim>\<open>default\<close>), passes \<^verbatim>\<open>&running\<close>, the address of its own parameter,
  to \<^verbatim>\<open>halt\<close>, and drops the parameter on return.
\<close>

definition trap_dispatch :: "u16 \<Rightarrow> frames \<times> vm \<Rightarrow> stop + frames \<times> vm" where
  "trap_dispatch instruction c =
     (case c of (fr, s) \<Rightarrow>
        (let code = instruction AND 0xFF
         in if code = TRAP_GETC then
              (case trap_getc s of Inl e \<Rightarrow> Inl e | Inr s' \<Rightarrow> Inr (fr, s'))
            else if code = TRAP_OUT then Inr (fr, trap_out s)
            else if code = TRAP_PUTS then
              (case trap_puts s of Inl e \<Rightarrow> Inl e | Inr s' \<Rightarrow> Inr (fr, s'))
            else if code = TRAP_IN then
              (case trap_in s of Inl e \<Rightarrow> Inl e | Inr s' \<Rightarrow> Inr (fr, s'))
            else if code = TRAP_PUTSP then
              (case trap_putsp s of Inl e \<Rightarrow> Inl e | Inr s' \<Rightarrow> Inr (fr, s'))
            else if code = TRAP_HALT then Inr (halt Trap_running (fr, s))
            else Inr (fr, s)))"

definition trap :: "u16 \<Rightarrow> var option \<Rightarrow> frames \<times> vm \<Rightarrow> stop + frames \<times> vm" where
  "trap instruction running c =
     (case c of (fr, s) \<Rightarrow>
        (case trap_dispatch instruction (fr(Trap_running \<mapsto> Ptr running), s) of
           Inl e \<Rightarrow> Inl e
         | Inr (fr', s') \<Rightarrow> Inr (fr'(Trap_running := None), s')))"

subsection \<open>The interpreter loop\<close>

text \<open>
  The \<^verbatim>\<open>switch (opcode)\<close> of the loop body, its cases in the order of the source.
  \<^verbatim>\<open>abort()\<close>, called for the two unused opcodes and in the default case, ends the
  process.
\<close>

definition execute :: "u16 \<Rightarrow> frames \<times> vm \<Rightarrow> stop + frames \<times> vm" where
  "execute instruction c =
     (case c of (fr, s) \<Rightarrow>
        (let opcode = drop_bit 12 instruction
         in if opcode = OP_ADD then Inr (fr, add instruction s)
            else if opcode = OP_AND then Inr (fr, and_op instruction s)
            else if opcode = OP_NOT then Inr (fr, not_op instruction s)
            else if opcode = OP_BR then Inr (fr, br instruction s)
            else if opcode = OP_JMP then Inr (fr, jmp instruction s)
            else if opcode = OP_JSR then Inr (fr, jsr instruction s)
            else if opcode = OP_LD then
              (case ld instruction s of Inl e \<Rightarrow> Inl e | Inr s' \<Rightarrow> Inr (fr, s'))
            else if opcode = OP_LDI then
              (case ldi instruction s of Inl e \<Rightarrow> Inl e | Inr s' \<Rightarrow> Inr (fr, s'))
            else if opcode = OP_LDR then
              (case ldr instruction s of Inl e \<Rightarrow> Inl e | Inr s' \<Rightarrow> Inr (fr, s'))
            else if opcode = OP_LEA then Inr (fr, lea instruction s)
            else if opcode = OP_ST then
              (case st instruction s of Inl e \<Rightarrow> Inl e | Inr s' \<Rightarrow> Inr (fr, s'))
            else if opcode = OP_STI then
              (case sti instruction s of Inl e \<Rightarrow> Inl e | Inr s' \<Rightarrow> Inr (fr, s'))
            else if opcode = OP_STR then
              (case str instruction s of Inl e \<Rightarrow> Inl e | Inr s' \<Rightarrow> Inr (fr, s'))
            else if opcode = OP_TRAP then trap instruction (Some Main_running) (fr, s)
            else if opcode = OP_RES then Inl Aborted
            else if opcode = OP_RTI then Inl Aborted
            else Inl Aborted))"

text \<open>
  One pass through the body of \<^verbatim>\<open>while (running)\<close>: the fetch, then the switch. The
  argument \<^verbatim>\<open>registers[R_PC]++\<close> is evaluated, with its increment, before
  \<^verbatim>\<open>mem_read\<close> is entered.
\<close>

definition cycle :: "frames \<times> vm \<Rightarrow> stop + frames \<times> vm" where
  "cycle c =
     (case c of (fr, s) \<Rightarrow>
        (let pc = registers s R_PC;
             s0 = s\<lparr>registers := (registers s)(R_PC := pc + 1)\<rparr>
         in case mem_read pc s0 of
              Inl e \<Rightarrow> Inl e
            | Inr (instruction, s1) \<Rightarrow> execute instruction (fr, s1)))"

text \<open>The test of \<^verbatim>\<open>while (running)\<close> reads the local of \<^verbatim>\<open>main\<close>.\<close>

definition running_flag :: "frames \<Rightarrow> bool" where
  "running_flag fr = (fr Main_running = Some (Bool True))"

text \<open>
  The state in which \<^verbatim>\<open>main\<close> enters the loop. \<^verbatim>\<open>registers\<close> has static storage
  and is zero before \<^verbatim>\<open>main\<close> assigns \<^verbatim>\<open>PC_START\<close> to the program counter;
  \<^verbatim>\<open>running\<close> is \<^verbatim>\<open>true\<close>. The content of \<^verbatim>\<open>memory\<close> after the images are
  loaded, and the terminal, are given.
\<close>

definition main_init :: "(nat \<Rightarrow> u16) \<Rightarrow> u8 list \<Rightarrow> bool \<Rightarrow> frames \<times> vm" where
  "main_init img keys ended =
     ([Main_running \<mapsto> Bool True],
      \<lparr>memory = img, registers = (\<lambda>_. 0)(R_PC := PC_START),
       pending = keys, buffered = [], eof = ended, stdout = []\<rparr>)"

text \<open>
  The loop, with a bound on the number of passes: \<open>Returned\<close> is \<^verbatim>\<open>return 0\<close>
  after the test of the loop failed, \<open>Stopped\<close> a pass that did not complete,
  \<open>Looping\<close> a loop still running when the bound is used up.
\<close>

datatype outcome = Returned vm | Stopped stop | Looping "frames \<times> vm"

fun main_loop :: "nat \<Rightarrow> frames \<times> vm \<Rightarrow> outcome" where
  "main_loop 0 c = (if running_flag (fst c) then Looping c else Returned (snd c))"
| "main_loop (Suc n) c =
     (if running_flag (fst c) then
        (case cycle c of Inl e \<Rightarrow> Stopped e | Inr c' \<Rightarrow> main_loop n c')
      else Returned (snd c))"

text \<open>The states the machine can be in: those the loop passes through.\<close>

inductive reachable :: "frames \<times> vm \<Rightarrow> bool" where
  start: "reachable (main_init img keys ended)"
| pass: "reachable c \<Longrightarrow> running_flag (fst c) \<Longrightarrow> cycle c = Inr c' \<Longrightarrow> reachable c'"

subsection \<open>Properties and concrete inputs\<close>

text \<open>
  The rule the specification gives for the condition register after a value \<open>v\<close> has
  been written: ZERO iff \<open>v\<close> is 0, NEGATIVE iff bit 15 of \<open>v\<close> is set, POSITIVE
  otherwise.
\<close>

definition spec_flags_match :: "u16 \<Rightarrow> u16 \<Rightarrow> bool" where
  "spec_flags_match cond v =
     ((cond = FLG_ZRO) = (v = 0) \<and>
      (cond = FLG_NEG) = bit v 15 \<and>
      (cond = FLG_POS) = (v \<noteq> 0 \<and> \<not> bit v 15))"

text \<open>The condition register one step later: as before, or exactly one flag.\<close>

definition cond_kept_or_set :: "vm \<Rightarrow> vm \<Rightarrow> bool" where
  "cond_kept_or_set s s' =
     (registers s' R_COND = registers s R_COND \<or>
      registers s' R_COND = FLG_POS \<or> registers s' R_COND = FLG_ZRO \<or>
      registers s' R_COND = FLG_NEG)"

text \<open>
  Memory images: all cells zero; a single \<^verbatim>\<open>TRAP HALT\<close> at the start address; and
  \<^verbatim>\<open>AND R0,R0,#0\<close> followed by \<^verbatim>\<open>JSR #0\<close>.
\<close>

definition zero_cells :: "nat \<Rightarrow> u16" where
  "zero_cells = (\<lambda>_. 0)"

definition halt_image :: "nat \<Rightarrow> u16" where
  "halt_image = zero_cells(0x3000 := 0xF025)"

definition and_jsr_image :: "nat \<Rightarrow> u16" where
  "and_jsr_image = zero_cells(0x3000 := 0x5020, 0x3001 := 0x4800)"

text \<open>
  The state after one pass over \<open>halt_image\<close>, and the states after one and two
  passes over \<open>and_jsr_image\<close>, each started by \<open>main_init\<close> with no input.
\<close>

definition halt_after :: "frames \<times> vm" where
  "halt_after =
     ([Main_running \<mapsto> Bool True],
      \<lparr>memory = halt_image, registers = zero_cells(R_PC := 0x3001),
       pending = [], buffered = [], eof = False, stdout = [0x48, 0x41, 0x4C, 0x54, 0x0A]\<rparr>)"

definition and_jsr_mid :: "frames \<times> vm" where
  "and_jsr_mid =
     ([Main_running \<mapsto> Bool True],
      \<lparr>memory = and_jsr_image,
       registers = zero_cells(R_PC := 0x3001, R_COND := FLG_ZRO),
       pending = [], buffered = [], eof = False, stdout = []\<rparr>)"

definition and_jsr_end :: "frames \<times> vm" where
  "and_jsr_end =
     ([Main_running \<mapsto> Bool True],
      \<lparr>memory = and_jsr_image,
       registers = zero_cells(R7 := 0x3002, R_PC := 0x3002, R_COND := FLG_ZRO),
       pending = [], buffered = [], eof = False, stdout = []\<rparr>)"

text \<open>
  Registers for the operand selection of ADD and AND: R1 = 5, R2 = 7, every other
  register 0.
\<close>

definition operand_state :: vm where
  "operand_state =
     \<lparr>memory = zero_cells, registers = zero_cells(1 := 5, 2 := 7),
      pending = [], buffered = [], eof = False, stdout = []\<rparr>"

text \<open>
  States around reads of the keyboard status: after the first read when the two bytes
  \<^verbatim>\<open>ab\<close> have arrived together, after a second read, and after a read at the end of
  an empty input.
\<close>

definition burst_after :: vm where
  "burst_after =
     \<lparr>memory = zero_cells(unat MR_KBSR := 0x8000, unat MR_KBDR := 0x61),
      registers = zero_cells(R_PC := PC_START),
      pending = [], buffered = [0x62], eof = False, stdout = []\<rparr>"

definition burst_end :: vm where
  "burst_end =
     \<lparr>memory = zero_cells(unat MR_KBSR := 0, unat MR_KBDR := 0x61),
      registers = zero_cells(R_PC := PC_START),
      pending = [], buffered = [0x62], eof = False, stdout = []\<rparr>"

definition eof_after :: vm where
  "eof_after =
     \<lparr>memory = zero_cells(unat MR_KBSR := 0x8000, unat MR_KBDR := 0xFFFF),
      registers = zero_cells(R_PC := PC_START),
      pending = [], buffered = [], eof = True, stdout = []\<rparr>"

section \<open>Basic facts\<close>

lemmas opcode_defs = OP_ADD_def OP_AND_def OP_NOT_def OP_BR_def OP_JMP_def
  OP_JSR_def OP_LD_def OP_LDI_def OP_LDR_def OP_LEA_def OP_ST_def OP_STI_def OP_STR_def
  OP_TRAP_def

lemmas trap_code_defs = TRAP_GETC_def TRAP_OUT_def TRAP_PUTS_def TRAP_IN_def TRAP_PUTSP_def
  TRAP_HALT_def

lemmas register_defs = R0_def R7_def R_PC_def R_COND_def

lemma reg_field_less: "reg_field instruction k < 8"
proof -
  have "drop_bit k instruction AND 7 \<le> (7 :: u16)"
    by (rule word_and_le1)
  then have "unat (drop_bit k instruction AND 7) \<le> unat (7 :: u16)"
    by (simp only: word_le_nat_alt)
  then show ?thesis
    by (simp add: reg_field_def)
qed

text \<open>The decoder of a register selector yields the number held in the three bits.\<close>

lemma reg_field_take_bit: "reg_field instruction k = unat (take_bit 3 (drop_bit k instruction))"
  by (simp add: reg_field_def take_bit_eq_mask mask_eq_exp_minus_1)

lemma reg_field_in_array: "reg_field instruction k < R_COUNT"
  using reg_field_less [of instruction k] by (simp add: R_COUNT_def)

lemma reg_field_not_special [simp]:
  "reg_field instruction k \<noteq> R_PC" "reg_field instruction k \<noteq> R_COND"
  "R_PC \<noteq> reg_field instruction k" "R_COND \<noteq> reg_field instruction k"
  using reg_field_less [of instruction k] by (auto simp: R_PC_def R_COND_def)

lemma special_distinct [simp]:
  "R_PC \<noteq> R_COND" "R_COND \<noteq> R_PC" "R7 \<noteq> R_COND" "R_COND \<noteq> R7"
  "R0 \<noteq> R_COND" "R_COND \<noteq> R0" "R7 \<noteq> R_PC" "R_PC \<noteq> R7" "R0 \<noteq> R_PC" "R_PC \<noteq> R0"
  by (simp_all add: R_PC_def R_COND_def R7_def R0_def)

lemma flags_distinct [simp]:
  "FLG_POS \<noteq> FLG_ZRO" "FLG_POS \<noteq> FLG_NEG" "FLG_ZRO \<noteq> FLG_NEG"
  "FLG_ZRO \<noteq> FLG_POS" "FLG_NEG \<noteq> FLG_POS" "FLG_NEG \<noteq> FLG_ZRO"
  "FLG_POS \<noteq> 0" "FLG_ZRO \<noteq> 0" "FLG_NEG \<noteq> 0"
  by (simp_all add: FLG_POS_def FLG_ZRO_def FLG_NEG_def)

lemma and_1_test: "(w AND 1 \<noteq> 0) = bit w 0" for w :: "'a::len word"
  by (simp add: and_one_eq bit_0 odd_iff_mod_2_eq_one)

text \<open>Every 16-bit address but the last one indexes a cell of \<^verbatim>\<open>memory\<close>.\<close>

lemma in_bounds_iff: "unat a < memory_cells \<longleftrightarrow> a \<noteq> 0xFFFF" for a :: u16
proof -
  have "unat a < 2 ^ LENGTH(16)"
    by (rule unsigned_less)
  then have "unat a < 65536"
    by simp
  moreover have "a = 0xFFFF \<longleftrightarrow> unat a = 65535"
    by (simp add: word_unat_eq_iff)
  ultimately show ?thesis
    by (auto simp: memory_cells_def UINT16_MAX_def)
qed

lemma device_cells_in_bounds:
  "unat MR_KBSR < memory_cells" "unat MR_KBDR < memory_cells"
  by (simp_all add: MR_KBSR_def MR_KBDR_def memory_cells_def UINT16_MAX_def)

section \<open>Memory bounds\<close>

text \<open>
  C1. The claim: for every 16-bit address \<open>a\<close>, \<^verbatim>\<open>mem_read(a)\<close> and
  \<^verbatim>\<open>mem_write(a, v)\<close> access a valid cell of the storage array. The array is declared
  with \<^verbatim>\<open>UINT16_MAX\<close> = 65535 cells, one short of the address space: the address
  \<^verbatim>\<open>0xFFFF\<close> is not an index of the array, and both accessors leave the array there.
\<close>

theorem top_address_outside_memory:
  "\<not> unat (0xFFFF :: u16) < memory_cells \<and>
   mem_read 0xFFFF s = Inl OutOfBounds \<and>
   mem_write 0xFFFF v s = Inl OutOfBounds"
  by (simp add: mem_read_def mem_write_def return_cell_def MR_KBSR_def
      memory_cells_def UINT16_MAX_def)

section \<open>Sign extension\<close>

lemma bit_0xFFFF: "bit (0xFFFF :: int) k = (k < 16)"
proof -
  have eq: "(mask 16 :: int) = 0xFFFF"
    by (simp add: mask_eq_exp_minus_1)
  have "bit (mask 16 :: int) k = (k < 16)"
    by (auto simp add: bit_mask_iff)
  then show ?thesis
    unfolding eq .
qed

text \<open>The test \<^verbatim>\<open>(x >> (num_bits - 1)) & 1\<close> reads the sign bit of the field.\<close>

lemma sign_test:
  "1 \<le> n \<Longrightarrow> n \<le> 16 \<Longrightarrow>
   (drop_bit (n - 1) (ucast (take_bit n v :: u16) :: u32) AND 1 \<noteq> 0) = bit v (n - 1)"
  by (auto simp add: and_1_test bit_simps)

lemma sign_extend_signed_take_bit:
  assumes "1 \<le> n" and "n \<le> 16"
  shows "sign_extend (take_bit n v) n = signed_take_bit (n - 1) v"
proof (rule bit_word_eqI)
  fix q
  assume q: "q < LENGTH(16)"
  have t: "(drop_bit (n - 1) (ucast (take_bit n v :: u16) :: u32) AND 1 \<noteq> 0) = bit v (n - 1)"
    using assms by (rule sign_test)
  have se: "sign_extend (take_bit n v) n =
     (if bit v (n - 1) then ucast ((ucast (take_bit n v) :: u32) OR push_bit n (0xFFFF :: u32))
      else take_bit n v)"
    unfolding sign_extend_def t ..
  show "bit (sign_extend (take_bit n v) n) q = bit (signed_take_bit (n - 1) v) q"
  proof (cases "q < n")
    case True
    then have m: "min (n - 1) q = q" by simp
    from True q assms show ?thesis
      by (simp add: se bit_simps bit_0xFFFF m)
  next
    case False
    then have m: "min (n - 1) q = n - 1" by simp
    from False q assms show ?thesis
      by (auto simp add: se bit_simps bit_0xFFFF m)
  qed
qed

lemma signed_take_bit_15: "signed_take_bit 15 v = v" for v :: u16
  by (rule bit_word_eqI) (simp add: bit_simps)

lemma take_bit_16: "take_bit 16 v = v" for v :: u16
  by (rule bit_word_eqI) (simp add: bit_simps)

lemma sint_signed_take_bit:
  "1 \<le> n \<Longrightarrow> n \<le> 16 \<Longrightarrow>
   sint (signed_take_bit (n - 1) (v :: u16)) = signed_take_bit (n - 1) (uint v)"
  by (rule bit_eqI) (auto simp add: bit_simps min_def)

lemma signed_take_bit_int_value:
  "signed_take_bit m (k :: int) =
     (if bit k m then take_bit (Suc m) k - 2 ^ Suc m else take_bit (Suc m) k)"
  by (simp add: signed_take_bit_eq_take_bit_minus)

text \<open>The masks of the instruction fields select the low bits.\<close>

lemma field_masks:
  "w AND 0x1F = take_bit 5 w" "w AND 0x3F = take_bit 6 w"
  "w AND 0x1FF = take_bit 9 w" "w AND 0x7FF = take_bit 11 w" for w :: u16
  by (simp_all add: take_bit_eq_mask mask_eq_exp_minus_1)

text \<open>
  C5. For every 16-bit value \<open>v\<close> and every bit count \<open>n\<close> from 1 to 16,
  \<^verbatim>\<open>sign_extend\<close> applied to the low \<open>n\<close> bits of \<open>v\<close> is the 16-bit word whose
  bits from \<open>n - 1\<close> upwards repeat bit \<open>n - 1\<close> of \<open>v\<close>; read as a signed number it is
  the two's-complement value of those \<open>n\<close> bits (their unsigned value, less \<open>2 ^ n\<close> when
  the sign bit is set); and \<^verbatim>\<open>sign_extend(v, 16)\<close> is \<open>v\<close>.
\<close>

theorem sign_extend_twos_complement:
  assumes "1 \<le> n" and "n \<le> 16"
  shows "sign_extend (take_bit n v) n = signed_take_bit (n - 1) v \<and>
         sint (sign_extend (take_bit n v) n) =
           (if bit v (n - 1) then uint (take_bit n v) - 2 ^ n else uint (take_bit n v)) \<and>
         sign_extend v 16 = v"
proof -
  from assms have S: "Suc (n - 1) = n"
    by simp
  from assms have lt: "n - Suc 0 < 16"
    by simp
  have a: "sign_extend (take_bit n v) n = signed_take_bit (n - 1) v"
    using assms by (rule sign_extend_signed_take_bit)
  have "sint (signed_take_bit (n - 1) v) = signed_take_bit (n - 1) (uint v)"
    using assms by (rule sint_signed_take_bit)
  also have "\<dots> =
      (if bit (uint v) (n - 1) then take_bit n (uint v) - 2 ^ n else take_bit n (uint v))"
    using signed_take_bit_int_value [of "n - 1" "uint v"] by (simp only: S)
  also have "\<dots> =
      (if bit v (n - 1) then uint (take_bit n v) - 2 ^ n else uint (take_bit n v))"
    using lt by (simp add: bit_uint_iff unsigned_take_bit_eq)
  finally have b: "sint (sign_extend (take_bit n v) n) =
      (if bit v (n - 1) then uint (take_bit n v) - 2 ^ n else uint (take_bit n v))"
    by (simp only: a)
  have c: "sign_extend v 16 = v"
    using sign_extend_signed_take_bit [of 16 v] by (simp add: signed_take_bit_15 take_bit_16)
  from a b c show ?thesis
    by simp
qed

theorem sign_extend_twos_complement_witness:
  "sign_extend (take_bit 5 0x1234) 5 = 0xFFF4 \<and>
   sint (sign_extend (take_bit 5 (0x1234 :: u16)) 5) = - 12 \<and>
   sign_extend 0x1234 16 = 0x1234"
  using sign_extend_twos_complement [of 5 "0x1234"] by simp

section \<open>Reads of memory and of the keyboard\<close>

text \<open>A read of a cell of the array other than the keyboard status is a plain load.\<close>

lemma mem_read_plain:
  "a \<noteq> MR_KBSR \<Longrightarrow> unat a < memory_cells \<Longrightarrow> mem_read a s = Inr (memory s (unat a), s)"
  by (simp add: mem_read_def return_cell_def)

lemma mem_read_plain_address:
  "a \<noteq> MR_KBSR \<Longrightarrow> a \<noteq> 0xFFFF \<Longrightarrow> mem_read a s = Inr (memory s (unat a), s)"
  by (simp add: mem_read_plain in_bounds_iff)

lemma getchar_registers: "getchar s = Inr (c, s') \<Longrightarrow> registers s' = registers s"
  by (auto simp: getchar_def split: list.splits if_splits)

lemma mem_read_registers: "mem_read a s = Inr (v, s') \<Longrightarrow> registers s' = registers s"
  by (auto simp: mem_read_def return_cell_def dest!: getchar_registers
      split: if_splits sum.splits)

lemma mem_write_registers: "mem_write a v s = Inr s' \<Longrightarrow> registers s' = registers s"
  by (auto simp: mem_write_def split: if_splits)

text \<open>
  What the read of the keyboard status does in terms of the two layers: with the
  descriptor not readable it stores 0, returns 0 and leaves the data cell; with a byte in
  the buffer of the stream, or else on the descriptor, and the descriptor readable, it
  stores \<^verbatim>\<open>0x8000\<close> and puts that byte in the data cell.
\<close>

lemma keyboard_status_not_readable:
  "check_key s = 0 \<Longrightarrow>
   mem_read MR_KBSR s = Inr (0, s\<lparr>memory := (memory s)(unat MR_KBSR := 0)\<rparr>)"
  by (simp add: mem_read_def return_cell_def device_cells_in_bounds)

lemma keyboard_status_byte:
  assumes "check_key s \<noteq> 0" and "buffered s @ take BUFSIZ (pending s) = c # cs"
  shows "\<exists>s'. mem_read MR_KBSR s = Inr (0x8000, s') \<and> memory s' (unat MR_KBSR) = 0x8000 \<and>
              memory s' (unat MR_KBDR) = ucast c"
  using assms
  by (cases "buffered s")
     (auto simp add: mem_read_def return_cell_def getchar_def MR_KBSR_def MR_KBDR_def
       memory_cells_def UINT16_MAX_def)

text \<open>
  C6. The claim: a read of the keyboard-status address with no input pending stores 0 in
  the status cell, returns 0 and leaves the data cell; with input pending it sets bit 15
  of the status cell and stores the next input character in the data cell. The code asks
  \<^verbatim>\<open>select\<close> about the descriptor and then reads through the stream, and the two
  disagree in both directions.

  When the bytes \<^verbatim>\<open>a\<close> and \<^verbatim>\<open>b\<close> arrive together, the first read of the status
  delivers \<^verbatim>\<open>a\<close> and pulls \<^verbatim>\<open>b\<close> into the buffer of the stream; at the next read
  of the status \<^verbatim>\<open>b\<close> is pending, the descriptor is empty, and the code stores and
  returns 0. At the end of an empty input no character is pending, the descriptor is
  readable, and the code stores \<^verbatim>\<open>0x8000\<close> in the status cell and overwrites the data
  cell with \<^verbatim>\<open>EOF\<close>, \<^verbatim>\<open>0xFFFF\<close>.
\<close>

theorem keyboard_status_misreports_input:
  "mem_read MR_KBSR (snd (main_init zero_cells [0x61, 0x62] False)) = Inr (0x8000, burst_after) \<and>
   buffered burst_after @ pending burst_after = [0x62] \<and>
   mem_read MR_KBSR burst_after = Inr (0, burst_end) \<and>
   memory burst_end (unat MR_KBSR) = 0 \<and>
   memory burst_end (unat MR_KBDR) = 0x61 \<and>
   buffered burst_end @ pending burst_end = [0x62] \<and>
   buffered (snd (main_init zero_cells [] True)) @ pending (snd (main_init zero_cells [] True)) = [] \<and>
   memory (snd (main_init zero_cells [] True)) (unat MR_KBDR) = 0 \<and>
   mem_read MR_KBSR (snd (main_init zero_cells [] True)) = Inr (0x8000, eof_after) \<and>
   memory eof_after (unat MR_KBSR) = 0x8000 \<and>
   memory eof_after (unat MR_KBDR) = 0xFFFF"
proof -
  have 1: "mem_read MR_KBSR (snd (main_init zero_cells [0x61, 0x62] False)) =
      Inr (0x8000, burst_after)"
    by (simp add: mem_read_def return_cell_def check_key_def getchar_def main_init_def
        BUFSIZ_def MR_KBSR_def MR_KBDR_def memory_cells_def UINT16_MAX_def burst_after_def
        zero_cells_def)
  have 2: "mem_read MR_KBSR burst_after = Inr (0, burst_end)"
    by (simp add: mem_read_def return_cell_def check_key_def MR_KBSR_def MR_KBDR_def
        memory_cells_def UINT16_MAX_def burst_after_def burst_end_def fun_eq_iff)
  have m: "(0xFFFF :: u16) = - 1"
    by simp
  have 3: "mem_read MR_KBSR (snd (main_init zero_cells [] True)) = Inr (0x8000, eof_after)"
    by (simp add: mem_read_def return_cell_def check_key_def getchar_def main_init_def
        BUFSIZ_def MR_KBSR_def MR_KBDR_def memory_cells_def UINT16_MAX_def eof_after_def
        zero_cells_def m)
  from 1 2 3 show ?thesis
    by (simp add: burst_after_def burst_end_def eof_after_def main_init_def zero_cells_def
        MR_KBSR_def MR_KBDR_def m)
qed

text \<open>
  C10. The claim: for every address \<open>a\<close> other than the keyboard-status address,
  \<^verbatim>\<open>mem_read(a)\<close> returns the stored value of cell \<open>a\<close> and changes no cell. It
  holds for every such address that indexes the array (\<open>mem_read_plain_address\<close>, which
  covers the keyboard-data address). The address \<^verbatim>\<open>0xFFFF\<close> is not the status
  address, and \<^verbatim>\<open>memory\<close> has no cell for it: the read returns no value.
\<close>

theorem mem_read_top_address_no_value:
  "(0xFFFF :: u16) \<noteq> MR_KBSR \<and> (\<forall>v s'. mem_read 0xFFFF s \<noteq> Inr (v, s'))"
  by (simp add: mem_read_def return_cell_def MR_KBSR_def memory_cells_def UINT16_MAX_def)

section \<open>Condition flags\<close>

lemma update_flags_registers:
  "r \<noteq> R_COND \<Longrightarrow> registers (update_flags r' s) r = registers s r"
  by (simp add: update_flags_def)

lemma update_flags_cond:
  "registers (update_flags r s) R_COND = FLG_POS \<or>
   registers (update_flags r s) R_COND = FLG_ZRO \<or>
   registers (update_flags r s) R_COND = FLG_NEG"
  by (simp add: update_flags_def)

text \<open>The test \<^verbatim>\<open>registers[r] >> 15\<close> reads bit 15.\<close>

lemma drop_bit_15_value: "drop_bit 15 w = (if bit w 15 then 1 else 0)" for w :: u16
proof (rule bit_word_eqI)
  fix q
  assume "q < LENGTH(16)"
  show "bit (drop_bit 15 w) q = bit (if bit w 15 then 1 else 0 :: u16) q"
  proof (cases "q = 0")
    case True
    then show ?thesis
      by (simp add: bit_simps)
  next
    case False
    then have "\<not> bit w (15 + q)"
      using bit_imp_le_length [of w "15 + q"] by auto
    with False show ?thesis
      by (simp add: bit_simps)
  qed
qed

lemma drop_bit_15_test: "(drop_bit 15 w \<noteq> 0) = bit w 15" for w :: u16
  by (simp add: drop_bit_15_value)

lemma update_flags_match:
  "r \<noteq> R_COND \<Longrightarrow>
   spec_flags_match (registers (update_flags r s) R_COND) (registers (update_flags r s) r)"
  by (auto simp add: update_flags_def spec_flags_match_def drop_bit_15_test)

text \<open>A condition register that matches a value holds exactly one flag.\<close>

lemma spec_flags_match_one_flag:
  "spec_flags_match cond v \<Longrightarrow> cond = FLG_POS \<or> cond = FLG_ZRO \<or> cond = FLG_NEG"
  by (auto simp add: spec_flags_match_def)

lemma add_match:
  "spec_flags_match (registers (add i s) R_COND) (registers (add i s) (reg_field i 9))"
  unfolding add_def Let_def by (rule update_flags_match) simp

lemma and_match:
  "spec_flags_match (registers (and_op i s) R_COND) (registers (and_op i s) (reg_field i 9))"
  unfolding and_op_def Let_def by (rule update_flags_match) simp

lemma not_match:
  "spec_flags_match (registers (not_op i s) R_COND) (registers (not_op i s) (reg_field i 9))"
  unfolding not_op_def Let_def by (rule update_flags_match) simp

lemma lea_match:
  "spec_flags_match (registers (lea i s) R_COND) (registers (lea i s) (reg_field i 9))"
  unfolding lea_def Let_def by (rule update_flags_match) simp

lemma ld_match:
  "ld i s = Inr s' \<Longrightarrow> spec_flags_match (registers s' R_COND) (registers s' (reg_field i 9))"
  by (auto simp add: ld_def Let_def split: sum.splits intro!: update_flags_match)

lemma ldi_match:
  "ldi i s = Inr s' \<Longrightarrow> spec_flags_match (registers s' R_COND) (registers s' (reg_field i 9))"
  by (auto simp add: ldi_def Let_def split: sum.splits intro!: update_flags_match)

lemma ldr_match:
  "ldr i s = Inr s' \<Longrightarrow> spec_flags_match (registers s' R_COND) (registers s' (reg_field i 9))"
  by (auto simp add: ldr_def Let_def split: sum.splits intro!: update_flags_match)

lemma jsr_keeps_cond: "registers (jsr i s) R_COND = registers s R_COND"
  by (simp add: jsr_def Let_def)

subsection \<open>The trap routines leave the condition register alone\<close>

lemma trap_puts_loop_registers: "trap_puts_loop i s = Inr s' \<Longrightarrow> registers s' = registers s"
proof (induction i s rule: trap_puts_loop.induct)
  case (1 i s)
  then show ?case
    by (subst (asm) (2) trap_puts_loop.simps) (auto simp: putc_def split: if_splits)
qed

lemma trap_putsp_loop_registers: "trap_putsp_loop i s = Inr s' \<Longrightarrow> registers s' = registers s"
proof (induction i s rule: trap_putsp_loop.induct)
  case (1 i s)
  then show ?case
    by (subst (asm) (2) trap_putsp_loop.simps) (auto simp: putc_def Let_def split: if_splits)
qed

lemma trap_getc_cond: "trap_getc s = Inr s' \<Longrightarrow> registers s' R_COND = registers s R_COND"
  by (auto simp add: trap_getc_def split: sum.splits dest!: getchar_registers)

lemma trap_out_cond: "registers (trap_out s) R_COND = registers s R_COND"
  by (simp add: trap_out_def putc_def)

lemma trap_puts_cond: "trap_puts s = Inr s' \<Longrightarrow> registers s' R_COND = registers s R_COND"
  by (auto simp add: trap_puts_def dest!: trap_puts_loop_registers)

lemma trap_in_cond: "trap_in s = Inr s' \<Longrightarrow> registers s' R_COND = registers s R_COND"
  by (auto simp add: trap_in_def Let_def putc_def printf_def split: sum.splits
      dest!: getchar_registers)

lemma trap_putsp_cond: "trap_putsp s = Inr s' \<Longrightarrow> registers s' R_COND = registers s R_COND"
  by (auto simp add: trap_putsp_def dest!: trap_putsp_loop_registers)

lemma halt_cond: "halt v (fr, s) = (fr', s') \<Longrightarrow> registers s' R_COND = registers s R_COND"
  by (auto simp add: halt_def puts_def)

lemma trap_dispatch_cond:
  assumes "trap_dispatch i (fr, s) = Inr (fr', s')"
  shows "registers s' R_COND = registers s R_COND"
proof -
  consider (getc) "trap_getc s = Inr s'" | (out) "s' = trap_out s" | (puts) "trap_puts s = Inr s'"
    | (inp) "trap_in s = Inr s'" | (putsp) "trap_putsp s = Inr s'"
    | (halt) "\<exists>fr0. halt Trap_running (fr0, s) = (fr', s')" | (none) "s' = s"
    using assms unfolding trap_dispatch_def Let_def prod.case
    by (simp split: if_splits sum.splits) auto
  then show ?thesis
  proof cases
    case getc
    then show ?thesis by (rule trap_getc_cond)
  next
    case out
    then show ?thesis by (simp add: trap_out_cond)
  next
    case puts
    then show ?thesis by (rule trap_puts_cond)
  next
    case inp
    then show ?thesis by (rule trap_in_cond)
  next
    case putsp
    then show ?thesis by (rule trap_putsp_cond)
  next
    case halt
    then show ?thesis by (auto dest: halt_cond)
  next
    case none
    then show ?thesis by simp
  qed
qed

lemma trap_keeps_cond:
  "trap i p (fr, s) = Inr (fr', s') \<Longrightarrow> registers s' R_COND = registers s R_COND"
  by (auto simp add: trap_def split: sum.splits dest!: trap_dispatch_cond)

subsection \<open>Two passes over \<open>and_jsr_image\<close>\<close>

lemma cycle_and_jsr_1: "cycle (main_init and_jsr_image [] False) = Inr and_jsr_mid"
  by (simp add: cycle_def main_init_def Let_def mem_read_def return_cell_def MR_KBSR_def
      PC_START_def memory_cells_def UINT16_MAX_def and_jsr_image_def execute_def opcode_defs
      and_op_def reg_field_def sign_extend_def update_flags_def register_defs
      and_jsr_mid_def zero_cells_def fun_eq_iff)

lemma cycle_and_jsr_2: "cycle and_jsr_mid = Inr and_jsr_end"
  by (simp add: cycle_def Let_def mem_read_def return_cell_def MR_KBSR_def
      memory_cells_def UINT16_MAX_def and_jsr_image_def execute_def opcode_defs
      jsr_def reg_field_def sign_extend_def register_defs
      and_jsr_mid_def and_jsr_end_def zero_cells_def fun_eq_iff)

text \<open>
  C4, as amended. After ADD, AND, NOT, LEA, LD, LDI or LDR has written its destination
  register, the condition register is ZERO iff the written value is 0, NEGATIVE iff bit 15
  of it is set, POSITIVE otherwise (hence exactly one flag, \<open>spec_flags_match_one_flag\<close>).
  JSR/JSRR, which writes R7, and the trap routines, of which GETC and IN write R0, leave
  the condition register as it was.
\<close>

theorem flags_follow_destination_write:
  "spec_flags_match (registers (add i s) R_COND) (registers (add i s) (reg_field i 9)) \<and>
   spec_flags_match (registers (and_op i s) R_COND) (registers (and_op i s) (reg_field i 9)) \<and>
   spec_flags_match (registers (not_op i s) R_COND) (registers (not_op i s) (reg_field i 9)) \<and>
   spec_flags_match (registers (lea i s) R_COND) (registers (lea i s) (reg_field i 9)) \<and>
   (\<forall>s'. ld i s = Inr s' \<longrightarrow>
      spec_flags_match (registers s' R_COND) (registers s' (reg_field i 9))) \<and>
   (\<forall>s'. ldi i s = Inr s' \<longrightarrow>
      spec_flags_match (registers s' R_COND) (registers s' (reg_field i 9))) \<and>
   (\<forall>s'. ldr i s = Inr s' \<longrightarrow>
      spec_flags_match (registers s' R_COND) (registers s' (reg_field i 9))) \<and>
   registers (jsr i s) R_COND = registers s R_COND \<and>
   (\<forall>fr fr' s'. trap i p (fr, s) = Inr (fr', s') \<longrightarrow>
      registers s' R_COND = registers s R_COND)"
  by (intro conjI allI impI;
      (rule add_match and_match not_match lea_match jsr_keeps_cond
       | erule ld_match ldi_match ldr_match trap_keeps_cond))

text \<open>
  The claim as stated fails for JSR. The program \<^verbatim>\<open>AND R0,R0,#0\<close>; \<^verbatim>\<open>JSR #0\<close>
  runs two passes from the initial state: the second writes \<^verbatim>\<open>0x3002\<close>, a non-zero
  value with bit 15 clear, to R7, and the condition register still holds ZERO.
\<close>

theorem jsr_write_leaves_flags_stale:
  "main_loop 2 (main_init and_jsr_image [] False) = Looping and_jsr_end \<and>
   registers (snd (main_init and_jsr_image [] False)) R7 = 0 \<and>
   registers (snd and_jsr_end) R7 = 0x3002 \<and>
   registers (snd and_jsr_end) R_COND = FLG_ZRO \<and>
   \<not> spec_flags_match (registers (snd and_jsr_end) R_COND) (registers (snd and_jsr_end) R7)"
proof -
  have n: "(2 :: nat) = Suc (Suc 0)"
    by simp
  have "main_loop 2 (main_init and_jsr_image [] False) = Looping and_jsr_end"
    unfolding n
    by (simp add: cycle_and_jsr_1 cycle_and_jsr_2)
       (simp add: main_init_def and_jsr_mid_def and_jsr_end_def running_flag_def)
  then show ?thesis
    by (simp add: and_jsr_end_def main_init_def spec_flags_match_def register_defs)
qed

theorem flags_follow_destination_write_witness:
  "\<exists>s1 s2 s3 fr' s4.
     ld 0x2200 (snd (main_init and_jsr_image [] False)) = Inr s1 \<and>
     spec_flags_match (registers s1 R_COND) (registers s1 1) \<and>
     ldi 0xA200 (snd (main_init and_jsr_image [] False)) = Inr s2 \<and>
     spec_flags_match (registers s2 R_COND) (registers s2 1) \<and>
     ldr 0x6240 (snd (main_init and_jsr_image [] False)) = Inr s3 \<and>
     spec_flags_match (registers s3 R_COND) (registers s3 1) \<and>
     trap 0xF021 (Some Main_running) (main_init and_jsr_image [] False) = Inr (fr', s4) \<and>
     registers s4 R_COND = 0"
proof -
  let ?s = "snd (main_init and_jsr_image [] False)"
  let ?fr = "fst (main_init and_jsr_image [] False)"
  have "\<exists>s1. ld 0x2200 ?s = Inr s1"
    by (simp add: ld_def Let_def mem_read_def return_cell_def main_init_def MR_KBSR_def
        PC_START_def sign_extend_def memory_cells_def UINT16_MAX_def register_defs)
  then obtain s1 where 1: "ld 0x2200 ?s = Inr s1" ..
  have "\<exists>s2. ldi 0xA200 ?s = Inr s2"
    by (simp add: ldi_def Let_def mem_read_def return_cell_def main_init_def MR_KBSR_def
        PC_START_def sign_extend_def memory_cells_def UINT16_MAX_def register_defs
        and_jsr_image_def zero_cells_def)
  then obtain s2 where 2: "ldi 0xA200 ?s = Inr s2" ..
  have "\<exists>s3. ldr 0x6240 ?s = Inr s3"
    by (simp add: ldr_def Let_def mem_read_def return_cell_def main_init_def MR_KBSR_def
        PC_START_def sign_extend_def memory_cells_def UINT16_MAX_def register_defs
        reg_field_def)
  then obtain s3 where 3: "ldr 0x6240 ?s = Inr s3" ..
  have "\<exists>fr' s4. trap 0xF021 (Some Main_running) (?fr, ?s) = Inr (fr', s4)"
    by (simp add: trap_def trap_dispatch_def Let_def TRAP_GETC_def TRAP_OUT_def main_init_def)
  then obtain fr' s4 where 4: "trap 0xF021 (Some Main_running) (?fr, ?s) = Inr (fr', s4)"
    by blast
  have r1: "reg_field 0x2200 9 = 1" "reg_field 0xA200 9 = 1" "reg_field 0x6240 9 = 1"
    by (simp_all add: reg_field_def)
  have c0: "registers ?s R_COND = 0"
    by (simp add: main_init_def)
  from flags_follow_destination_write [of "0x2200" ?s] 1
  have a: "spec_flags_match (registers s1 R_COND) (registers s1 1)"
    by (simp add: r1)
  from flags_follow_destination_write [of "0xA200" ?s] 2
  have b: "spec_flags_match (registers s2 R_COND) (registers s2 1)"
    by (simp add: r1)
  from flags_follow_destination_write [of "0x6240" ?s] 3
  have c: "spec_flags_match (registers s3 R_COND) (registers s3 1)"
    by (simp add: r1)
  from flags_follow_destination_write [of "0xF021" ?s "Some Main_running"] 4
  have "registers s4 R_COND = registers ?s R_COND"
    by blast
  with c0 have d: "registers s4 R_COND = 0"
    by (simp only:)
  from 1 2 3 4 a b c d show ?thesis
    unfolding prod.collapse by blast
qed

section \<open>Arithmetic and jumps\<close>

text \<open>
  C8. For every ADD and AND instruction the destination is the register whose number is
  held in bits 9 to 11, the first operand the register whose number is held in bits 6 to
  8, and the second operand is, when bit 5 is set, the low 5 bits of the instruction
  sign-extended to 16 bits (bit 4 repeated upwards, which is what \<^verbatim>\<open>sign_extend\<close>
  returns on the field) and, when bit 5 is clear, the register whose number is held in the
  low 3 bits. The destination receives the sum, or the bitwise conjunction, of the two
  operands. In both modes, and for both instructions, the condition register afterwards
  follows the one rule \<open>spec_flags_match\<close> applied to the destination register, and no
  other register changes.
\<close>

theorem add_and_second_operand:
  "registers (add instruction s) (unat (take_bit 3 (drop_bit 9 instruction))) =
     registers s (unat (take_bit 3 (drop_bit 6 instruction))) +
       (if bit instruction 5 then signed_take_bit 4 instruction
        else registers s (unat (take_bit 3 instruction))) \<and>
   registers (and_op instruction s) (unat (take_bit 3 (drop_bit 9 instruction))) =
     registers s (unat (take_bit 3 (drop_bit 6 instruction))) AND
       (if bit instruction 5 then signed_take_bit 4 instruction
        else registers s (unat (take_bit 3 instruction))) \<and>
   sign_extend (instruction AND 0x1F) 5 = signed_take_bit 4 instruction \<and>
   spec_flags_match (registers (add instruction s) R_COND)
     (registers (add instruction s) (unat (take_bit 3 (drop_bit 9 instruction)))) \<and>
   spec_flags_match (registers (and_op instruction s) R_COND)
     (registers (and_op instruction s) (unat (take_bit 3 (drop_bit 9 instruction)))) \<and>
   (\<forall>r. r \<noteq> unat (take_bit 3 (drop_bit 9 instruction)) \<and> r \<noteq> R_COND \<longrightarrow>
      registers (add instruction s) r = registers s r \<and>
      registers (and_op instruction s) r = registers s r)"
proof -
  have f: "(drop_bit 5 instruction AND 1 \<noteq> 0) = bit instruction 5"
    by (simp add: and_1_test bit_simps)
  have se: "sign_extend (instruction AND 0x1F) 5 = signed_take_bit 4 instruction"
    using sign_extend_signed_take_bit [of 5 instruction] by (simp add: field_masks)
  have d: "unat (take_bit 3 (drop_bit 9 instruction)) = reg_field instruction 9"
    and s1: "unat (take_bit 3 (drop_bit 6 instruction)) = reg_field instruction 6"
    and s2: "unat (take_bit 3 instruction) = reg_field instruction 0"
    by (simp_all add: reg_field_take_bit)
  have a: "registers (add instruction s) (reg_field instruction 9) =
     registers s (reg_field instruction 6) +
       (if bit instruction 5 then signed_take_bit 4 instruction
        else registers s (reg_field instruction 0))"
    unfolding add_def Let_def f se by (simp add: update_flags_registers)
  have b: "registers (and_op instruction s) (reg_field instruction 9) =
     registers s (reg_field instruction 6) AND
       (if bit instruction 5 then signed_take_bit 4 instruction
        else registers s (reg_field instruction 0))"
    unfolding and_op_def Let_def f se by (simp add: update_flags_registers)
  have o: "registers (add instruction s) r = registers s r \<and>
           registers (and_op instruction s) r = registers s r"
    if "r \<noteq> reg_field instruction 9" and "r \<noteq> R_COND" for r
    using that by (simp add: add_def and_op_def Let_def update_flags_registers)
  from a b se add_match [of instruction s] and_match [of instruction s] o show ?thesis
    unfolding d s1 s2 by simp
qed

text \<open>
  \<^verbatim>\<open>ADD R3,R1,R2\<close>, \<^verbatim>\<open>ADD R3,R1,#-1\<close>, \<^verbatim>\<open>AND R3,R1,R2\<close>,
  \<^verbatim>\<open>AND R3,R1,#3\<close> and \<^verbatim>\<open>ADD R3,R0,#-1\<close> with R1 = 5, R2 = 7 and the other
  registers 0.
\<close>

theorem add_and_second_operand_witness:
  "registers (add 0x1642 operand_state) 3 = 12 \<and>
   registers (add 0x167F operand_state) 3 = 4 \<and>
   registers (and_op 0x5642 operand_state) 3 = 5 \<and>
   registers (and_op 0x5663 operand_state) 3 = 1 \<and>
   registers (add 0x163F operand_state) 3 = 0xFFFF \<and>
   registers (add 0x1642 operand_state) R_COND = FLG_POS \<and>
   registers (and_op 0x5663 operand_state) R_COND = FLG_POS \<and>
   registers (add 0x163F operand_state) R_COND = FLG_NEG \<and>
   registers (add 0x1642 operand_state) 1 = 5 \<and>
   registers (add 0x1642 operand_state) 2 = 7 \<and>
   registers (and_op 0x5642 operand_state) 7 = 0"
  using add_and_second_operand [of "0x1642" operand_state]
        add_and_second_operand [of "0x167F" operand_state]
        add_and_second_operand [of "0x5642" operand_state]
        add_and_second_operand [of "0x5663" operand_state]
        add_and_second_operand [of "0x163F" operand_state]
  by (simp add: operand_state_def zero_cells_def spec_flags_match_def register_defs)

text \<open>
  C7. \<^verbatim>\<open>jsr\<close> stores the program counter it finds (the address after the JSR, since
  the fetch has advanced it) in R7 first, in both modes. With bit 11 set the program
  counter then advances by the sign-extended low 11 bits; with bit 11 clear it becomes the
  base register as it is after the store to R7, so with base register R7 it becomes the
  saved value.
\<close>

theorem jsr_saves_pc_first:
  "registers (jsr instruction s) R7 = registers s R_PC \<and>
   (bit instruction 11 \<longrightarrow>
      registers (jsr instruction s) R_PC =
        registers s R_PC + sign_extend (instruction AND 0x7FF) 11 \<and>
      sign_extend (instruction AND 0x7FF) 11 = signed_take_bit 10 instruction) \<and>
   (\<not> bit instruction 11 \<longrightarrow>
      registers (jsr instruction s) R_PC =
        ((registers s)(R7 := registers s R_PC)) (reg_field instruction 6)) \<and>
   (\<not> bit instruction 11 \<and> reg_field instruction 6 = R7 \<longrightarrow>
      registers (jsr instruction s) R_PC = registers s R_PC)"
  using sign_extend_signed_take_bit [of 11 instruction]
  by (simp add: jsr_def Let_def and_1_test bit_simps field_masks)

text \<open>\<^verbatim>\<open>JSR #5\<close> and \<^verbatim>\<open>JSRR R7\<close> with the program counter at \<^verbatim>\<open>0x3000\<close>.\<close>

theorem jsr_saves_pc_first_witness:
  "registers (jsr 0x4805 (snd (main_init zero_cells [] False))) R7 = 0x3000 \<and>
   registers (jsr 0x4805 (snd (main_init zero_cells [] False))) R_PC = 0x3005 \<and>
   registers (jsr 0x41C0 (snd (main_init zero_cells [] False))) R7 = 0x3000 \<and>
   registers (jsr 0x41C0 (snd (main_init zero_cells [] False))) R_PC = 0x3000"
  using jsr_saves_pc_first [of "0x4805" "snd (main_init zero_cells [] False)"]
        jsr_saves_pc_first [of "0x41C0" "snd (main_init zero_cells [] False)"]
  by (simp add: main_init_def PC_START_def reg_field_def R7_def R_PC_def)

section \<open>Traps and the running flag\<close>

lemma execute_trap:
  "drop_bit 12 i = OP_TRAP \<Longrightarrow> execute i (fr, s) = trap i (Some Main_running) (fr, s)"
  by (simp add: execute_def opcode_defs)

text \<open>
  C9. A TRAP whose low byte is none of the six codes \<^verbatim>\<open>0x20\<close> to \<^verbatim>\<open>0x25\<close>
  falls through the \<^verbatim>\<open>switch\<close>: \<^verbatim>\<open>trap\<close> returns with memory, registers, input
  and output as they were and the flag of \<^verbatim>\<open>main\<close> untouched (only its own parameter
  has come and gone). For the whole pass that fetches such an instruction from an ordinary
  cell, the one change is the increment of the program counter made by the fetch.
\<close>

theorem unknown_trap_is_noop:
  assumes "instruction AND 0xFF \<notin>
             {TRAP_GETC, TRAP_OUT, TRAP_PUTS, TRAP_IN, TRAP_PUTSP, TRAP_HALT}"
  shows "trap instruction running (fr, s) = Inr (fr(Trap_running := None), s) \<and>
         (fr(Trap_running := None)) Main_running = fr Main_running \<and>
         (drop_bit 12 instruction = OP_TRAP \<and> registers s R_PC \<noteq> MR_KBSR \<and>
          unat (registers s R_PC) < memory_cells \<and>
          memory s (unat (registers s R_PC)) = instruction \<longrightarrow>
            cycle (fr, s) =
              Inr (fr(Trap_running := None),
                   s\<lparr>registers := (registers s)(R_PC := registers s R_PC + 1)\<rparr>))"
proof -
  have t: "trap instruction running (fr, s) = Inr (fr(Trap_running := None), s)"
    for running s
    using assms by (simp add: trap_def trap_dispatch_def Let_def)
  show ?thesis
    by (simp add: t cycle_def Let_def mem_read_plain execute_trap)
qed

text \<open>\<^verbatim>\<open>TRAP 0xFF\<close>, as a call of \<^verbatim>\<open>trap\<close> and as the instruction at the start address.\<close>

theorem unknown_trap_is_noop_witness:
  "trap 0xF0FF (Some Main_running) (main_init zero_cells [] False) =
     Inr (main_init zero_cells [] False) \<and>
   cycle (main_init (zero_cells(0x3000 := 0xF0FF)) [] False) =
     Inr ([Main_running \<mapsto> Bool True],
          \<lparr>memory = zero_cells(0x3000 := 0xF0FF),
           registers = (\<lambda>_. 0)(R_PC := PC_START, R_PC := PC_START + 1),
           pending = [], buffered = [], eof = False, stdout = []\<rparr>)"
  using unknown_trap_is_noop [of "0xF0FF" "Some Main_running"
          "fst (main_init zero_cells [] False)" "snd (main_init zero_cells [] False)"]
        unknown_trap_is_noop [of "0xF0FF" "Some Main_running"
          "fst (main_init (zero_cells(0x3000 := 0xF0FF)) [] False)"
          "snd (main_init (zero_cells(0x3000 := 0xF0FF)) [] False)"]
  by (simp add: trap_code_defs opcode_defs main_init_def PC_START_def MR_KBSR_def
      memory_cells_def UINT16_MAX_def register_defs)

subsection \<open>No trap reaches the flag of \<^verbatim>\<open>main\<close>\<close>

lemma trap_dispatch_main_running:
  "trap_dispatch i (fr, s) = Inr (fr', s') \<Longrightarrow> fr' Main_running = fr Main_running"
  by (auto simp add: trap_dispatch_def Let_def halt_def split: if_splits sum.splits)

lemma trap_main_running:
  "trap i p (fr, s) = Inr (fr', s') \<Longrightarrow> fr' Main_running = fr Main_running"
  by (auto simp add: trap_def split: sum.splits dest!: trap_dispatch_main_running)

lemma execute_main_running:
  "execute i (fr, s) = Inr (fr', s') \<Longrightarrow> fr' Main_running = fr Main_running"
  unfolding execute_def Let_def
  by (auto split: if_splits sum.splits dest: trap_main_running)

lemma cycle_main_running:
  assumes "cycle (fr, s) = Inr (fr', s')"
  shows "fr' Main_running = fr Main_running"
  using assms
  by (auto simp add: cycle_def Let_def split: sum.splits dest: execute_main_running)

lemma cycle_running_flag:
  "cycle c = Inr c' \<Longrightarrow> running_flag (fst c') = running_flag (fst c)"
  by (cases c, cases c') (auto simp add: running_flag_def dest: cycle_main_running)

text \<open>Entered with the flag set, the loop never comes to \<^verbatim>\<open>return 0\<close>.\<close>

lemma main_loop_never_returns:
  "running_flag (fst c) \<Longrightarrow> main_loop n c \<noteq> Returned s'"
proof (induction n arbitrary: c)
  case 0
  then show ?case
    by simp
next
  case (Suc n)
  then show ?case
    by (auto split: sum.splits simp: cycle_running_flag)
qed

lemma cycle_halt_image: "cycle (main_init halt_image [] False) = Inr halt_after"
  by (simp add: cycle_def main_init_def Let_def mem_read_def return_cell_def MR_KBSR_def
      PC_START_def memory_cells_def UINT16_MAX_def halt_image_def execute_def opcode_defs
      trap_def trap_dispatch_def trap_code_defs halt_def puts_def bytes_def halt_after_def
      zero_cells_def fun_eq_iff)

text \<open>
  C2. The claim: a TRAP with low byte \<^verbatim>\<open>0x25\<close> clears the execution flag, so the loop
  ends after the current pass, and an image whose first instruction is \<^verbatim>\<open>0xF025\<close>
  halts at once. In the code \<^verbatim>\<open>trap\<close> hands \<^verbatim>\<open>halt\<close> the address of its own
  pointer parameter, and \<^verbatim>\<open>halt\<close> overwrites that parameter with the null pointer;
  the \<^verbatim>\<open>bool\<close> of \<^verbatim>\<open>main\<close> is never written. On the image with \<^verbatim>\<open>0xF025\<close>
  at the start address the first pass prints the notice and leaves the flag set: after one
  pass the loop is still running, with the program counter at \<^verbatim>\<open>0x3001\<close>.
\<close>

theorem halt_trap_leaves_loop_running:
  "cycle (main_init halt_image [] False) = Inr halt_after \<and>
   running_flag (fst halt_after) \<and>
   stdout (snd halt_after) = bytes ''HALT'' @ [0x0A] \<and>
   main_loop 1 (main_init halt_image [] False) = Looping halt_after"
proof -
  have r: "running_flag (fst halt_after)"
    by (simp add: halt_after_def running_flag_def)
  have i: "running_flag (fst (main_init halt_image [] False))"
    by (simp add: main_init_def running_flag_def)
  have o: "stdout (snd halt_after) = bytes ''HALT'' @ [0x0A]"
    by (simp add: halt_after_def bytes_def)
  have "main_loop (Suc 0) (main_init halt_image [] False) = Looping halt_after"
    by (simp add: cycle_halt_image i r)
  with r o cycle_halt_image show ?thesis
    by simp
qed

section \<open>The condition register along a run\<close>

lemma update_flags_set: "cond_kept_or_set s (update_flags r s')"
  using update_flags_cond [of r s'] by (auto simp add: cond_kept_or_set_def)

lemma add_cond: "cond_kept_or_set s (add i s)"
  by (simp add: add_def Let_def update_flags_set)

lemma and_cond: "cond_kept_or_set s (and_op i s)"
  by (simp add: and_op_def Let_def update_flags_set)

lemma not_cond: "cond_kept_or_set s (not_op i s)"
  by (simp add: not_op_def Let_def update_flags_set)

lemma lea_cond: "cond_kept_or_set s (lea i s)"
  by (simp add: lea_def Let_def update_flags_set)

lemma br_cond: "cond_kept_or_set s (br i s)"
  by (simp add: br_def Let_def cond_kept_or_set_def)

lemma jmp_cond: "cond_kept_or_set s (jmp i s)"
  by (simp add: jmp_def Let_def cond_kept_or_set_def)

lemma jsr_cond: "cond_kept_or_set s (jsr i s)"
  by (simp add: jsr_def Let_def cond_kept_or_set_def)

lemma ld_cond: "ld i s = Inr s' \<Longrightarrow> cond_kept_or_set s s'"
  by (auto simp add: ld_def Let_def update_flags_set split: sum.splits)

lemma ldi_cond: "ldi i s = Inr s' \<Longrightarrow> cond_kept_or_set s s'"
  by (auto simp add: ldi_def Let_def update_flags_set split: sum.splits)

lemma ldr_cond: "ldr i s = Inr s' \<Longrightarrow> cond_kept_or_set s s'"
  by (auto simp add: ldr_def Let_def update_flags_set split: sum.splits)

lemma st_cond: "st i s = Inr s' \<Longrightarrow> cond_kept_or_set s s'"
  by (auto simp add: st_def Let_def cond_kept_or_set_def dest: mem_write_registers)

lemma str_cond: "str i s = Inr s' \<Longrightarrow> cond_kept_or_set s s'"
  by (auto simp add: str_def Let_def cond_kept_or_set_def dest: mem_write_registers)

lemma sti_cond: "sti i s = Inr s' \<Longrightarrow> cond_kept_or_set s s'"
  by (auto simp add: sti_def Let_def cond_kept_or_set_def split: sum.splits
      dest!: mem_write_registers mem_read_registers)

lemma trap_cond: "trap i p (fr, s) = Inr (fr', s') \<Longrightarrow> cond_kept_or_set s s'"
  by (auto simp add: cond_kept_or_set_def dest!: trap_keeps_cond)

lemma execute_cond:
  "execute i (fr, s) = Inr (fr', s') \<Longrightarrow> cond_kept_or_set s s'"
  unfolding execute_def Let_def
  by (auto split: if_splits sum.splits
      intro: add_cond and_cond not_cond br_cond jmp_cond jsr_cond lea_cond ld_cond ldi_cond
        ldr_cond st_cond sti_cond str_cond trap_cond)

lemma cycle_cond:
  assumes "cycle (fr, s) = Inr (fr', s')"
  shows "cond_kept_or_set s s'"
proof -
  from assms obtain i s1 where
    rd: "mem_read (registers s R_PC)
           (s\<lparr>registers := (registers s)(R_PC := registers s R_PC + 1)\<rparr>) = Inr (i, s1)"
    and ex: "execute i (fr, s1) = Inr (fr', s')"
    by (auto simp add: cycle_def Let_def split: sum.splits)
  from rd have "registers s1 R_COND = registers s R_COND"
    by (auto dest!: mem_read_registers)
  moreover from ex have "cond_kept_or_set s1 s'"
    by (rule execute_cond)
  ultimately show ?thesis
    by (simp add: cond_kept_or_set_def)
qed

text \<open>
  C3, as amended. In every state the machine can be in, the condition register holds 0
  (no flag: its value in the initial state, where \<^verbatim>\<open>main\<close> sets only the program
  counter) or exactly one of POSITIVE (1), ZERO (2), NEGATIVE (4); and from a state in
  which it holds a flag, it holds exactly one flag after every instruction step.
\<close>

theorem cond_register_zero_or_one_flag:
  assumes "reachable c"
  shows "(registers (snd c) R_COND = 0 \<or> registers (snd c) R_COND = FLG_POS \<or>
          registers (snd c) R_COND = FLG_ZRO \<or> registers (snd c) R_COND = FLG_NEG) \<and>
         (\<forall>c'. registers (snd c) R_COND \<noteq> 0 \<and> cycle c = Inr c' \<longrightarrow>
            registers (snd c') R_COND = FLG_POS \<or> registers (snd c') R_COND = FLG_ZRO \<or>
            registers (snd c') R_COND = FLG_NEG)"
proof -
  have inv: "registers (snd c) R_COND = 0 \<or> registers (snd c) R_COND = FLG_POS \<or>
          registers (snd c) R_COND = FLG_ZRO \<or> registers (snd c) R_COND = FLG_NEG"
    using assms
  proof (induction rule: reachable.induct)
    case (start img keys ended)
    then show ?case
      by (simp add: main_init_def)
  next
    case (pass c c')
    obtain fr s fr' s' where c: "c = (fr, s)" and c': "c' = (fr', s')"
      by (cases c, cases c')
    from pass.hyps(3) have "cond_kept_or_set s s'"
      unfolding c c' by (rule cycle_cond)
    with pass.IH show ?case
      by (auto simp add: c c' cond_kept_or_set_def)
  qed
  have step: "registers (snd c') R_COND = FLG_POS \<or> registers (snd c') R_COND = FLG_ZRO \<or>
            registers (snd c') R_COND = FLG_NEG"
    if nz: "registers (snd c) R_COND \<noteq> 0" and cy: "cycle c = Inr c'" for c'
  proof -
    obtain fr s fr' s' where c: "c = (fr, s)" and c': "c' = (fr', s')"
      by (cases c, cases c')
    from cy have "cond_kept_or_set s s'"
      unfolding c c' by (rule cycle_cond)
    with inv nz show ?thesis
      by (auto simp add: c c' cond_kept_or_set_def)
  qed
  from inv step show ?thesis
    by blast
qed

text \<open>
  The claim as stated fails in the initial state: before any instruction has executed the
  condition register is 0, which is none of the three flags.
\<close>

theorem initial_cond_register_holds_no_flag:
  "registers (snd (main_init zero_cells [] False)) R_COND = 0 \<and>
   registers (snd (main_init zero_cells [] False)) R_COND \<notin> {FLG_POS, FLG_ZRO, FLG_NEG}"
  by (simp add: main_init_def)

text \<open>
  The state after \<^verbatim>\<open>AND R0,R0,#0\<close> is reachable and holds ZERO; the pass that
  executes \<^verbatim>\<open>JSR #0\<close> from it leaves one flag.
\<close>

theorem cond_register_zero_or_one_flag_witness:
  "reachable and_jsr_mid \<and> registers (snd and_jsr_mid) R_COND \<noteq> 0 \<and>
   cycle and_jsr_mid = Inr and_jsr_end \<and>
   (registers (snd and_jsr_end) R_COND = FLG_POS \<or>
    registers (snd and_jsr_end) R_COND = FLG_ZRO \<or>
    registers (snd and_jsr_end) R_COND = FLG_NEG)"
proof -
  have "running_flag (fst (main_init and_jsr_image [] False))"
    by (simp add: main_init_def running_flag_def)
  with cycle_and_jsr_1 have r: "reachable and_jsr_mid"
    by (rule reachable.pass [OF reachable.start, rotated])
  have nz: "registers (snd and_jsr_mid) R_COND \<noteq> 0"
    by (simp add: and_jsr_mid_def)
  from cond_register_zero_or_one_flag [OF r] nz cycle_and_jsr_2 r show ?thesis
    by blast
qed

end
